theory Spec2Isabelle
  imports Main "HOL-Library.Sublist" "HOL-Library.Word"
begin

section \<open>Search index builder: \<^verbatim>\<open>scripts/build_search_index.py\<close>\<close>

text \<open>
  The script walks a version directory of markdown files, truncates oversized files,
  reads the front matter of every remaining file and turns it into one search document.
  Text is modelled as \<^typ>\<open>string\<close>; the functions below look only at the characters
  \<open>/\<close>, \<open><\<close>, \<open>>\<close>, \<open>#\<close>, \<open>.\<close> and the newline, and treat every other
  character alike.
\<close>

subsection \<open>String operations of the Python library\<close>

text \<open>\<^verbatim>\<open>s.lstrip(chars)\<close>: drops leading characters while they belong to \<open>chars\<close>.\<close>

fun lstrip :: "string \<Rightarrow> string \<Rightarrow> string" where
  "lstrip chars [] = []"
| "lstrip chars (c # cs) = (if c \<in> set chars then lstrip chars cs else c # cs)"

text \<open>
  \<^verbatim>\<open>s.split(sep)\<close> for a separator of one character: the fields between the
  separators, empty fields kept, so that the empty string gives one empty field.
\<close>

fun split :: "char \<Rightarrow> string \<Rightarrow> string list" where
  "split sep [] = [[]]"
| "split sep (c # cs) =
     (if c = sep then [] # split sep cs
      else (case split sep cs of
              [] \<Rightarrow> [[c]]
            | w # ws \<Rightarrow> (c # w) # ws))"

text \<open>\<^verbatim>\<open>s.replace(old, "")\<close> for \<open>old\<close> of one character: every occurrence goes.\<close>

definition replace_empty :: "char \<Rightarrow> string \<Rightarrow> string" where
  "replace_empty old s = filter (\<lambda>c. c \<noteq> old) s"

text \<open>\<^verbatim>\<open>sub in s\<close> on strings: \<open>sub\<close> occurs in \<open>s\<close> as a contiguous block.\<close>

fun str_contains :: "string \<Rightarrow> string \<Rightarrow> bool" where
  "str_contains sub [] = (sub = [])"
| "str_contains sub (c # cs) = (prefix sub (c # cs) \<or> str_contains sub cs)"

subsection \<open>Content cleaning\<close>

text \<open>
  \<^verbatim>\<open>CONTENT_REGEX = re.compile(r"<(.*?)>", re.DOTALL | re.MULTILINE)\<close>.
  A match starts at a \<open><\<close> and, the group being lazy and the dot matching newlines
  too, ends at the first \<open>>\<close> after it. \<open>find_close\<close> looks for that \<open>>\<close> and
  returns the text behind it.
\<close>

fun find_close :: "string \<Rightarrow> string option" where
  "find_close [] = None"
| "find_close (c # cs) = (if c = CHR ''>'' then Some cs else find_close cs)"

text \<open>
  \<^verbatim>\<open>CONTENT_REGEX.sub("", content, 0)\<close>: scanning from the left, every match is
  deleted and the scan goes on behind it; a position where the pattern does not match
  keeps its character.
\<close>

function CONTENT_REGEX_sub :: "string \<Rightarrow> string" where
  "CONTENT_REGEX_sub [] = []"
| "CONTENT_REGEX_sub (c # cs) =
     (if c = CHR ''<'' then
        (case find_close cs of
           Some rest \<Rightarrow> CONTENT_REGEX_sub rest
         | None \<Rightarrow> c # CONTENT_REGEX_sub cs)
      else c # CONTENT_REGEX_sub cs)"
  by pat_completeness auto
termination
proof (relation "measure length")
  fix c :: char and cs rest :: string
  assume "find_close cs = Some rest"
  then have "length rest < length cs"
    by (induction cs) (auto split: if_splits)
  then show "(rest, c # cs) \<in> measure length"
    by simp
qed simp_all

definition get_page_content :: "string \<Rightarrow> string" where
  "get_page_content content =
     replace_empty CHR ''#'' (replace_empty CHR 0x0A (CONTENT_REGEX_sub content))"

subsection \<open>Paths and the file system\<close>

text \<open>
  A path is the string \<^verbatim>\<open>str(file)\<close>, its components joined by \<open>/\<close>.
  \<^verbatim>\<open>file.name\<close> is the last component.
\<close>

type_synonym path = string

definition path_name :: "path \<Rightarrow> string" where
  "path_name p = rev (takeWhile (\<lambda>c. c \<noteq> CHR ''/'') (rev p))"

text \<open>\<^verbatim>\<open>name.rfind('.')\<close>: the index of the last occurrence, if there is one.\<close>

fun rfind :: "char \<Rightarrow> string \<Rightarrow> nat option" where
  "rfind c [] = None"
| "rfind c (x # xs) =
     (case rfind c xs of
        Some i \<Rightarrow> Some (Suc i)
      | None \<Rightarrow> if x = c then Some 0 else None)"

text \<open>
  \<^verbatim>\<open>file.stem\<close> of pathlib: the name up to its last dot, when that dot is neither
  the first nor the last character of the name (\<^verbatim>\<open>0 < i < len(name) - 1\<close>);
  the whole name otherwise.
\<close>

definition stem :: "path \<Rightarrow> string" where
  "stem p =
     (let name = path_name p in
      case rfind CHR ''.'' name of
        None \<Rightarrow> name
      | Some i \<Rightarrow> if 0 < i \<and> i + 1 < length name then take i name else name)"

text \<open>The pattern \<^verbatim>\<open>*.[mM][dD]\<close> on a name: it ends in a dot, an m and a d, of either case.\<close>

definition match_md :: "string \<Rightarrow> bool" where
  "match_md name =
     (case rev name of
        d # m # dot # _ \<Rightarrow>
          dot = CHR ''.'' \<and> (m = CHR ''m'' \<or> m = CHR ''M'') \<and> (d = CHR ''d'' \<or> d = CHR ''D'')
      | _ \<Rightarrow> False)"

text \<open>
  The file system holds regular files, listed in the order in which the directory walk
  meets them. A file has its bytes and the two permissions \<^verbatim>\<open>open\<close> asks for.
\<close>

type_synonym byte = "8 word"

record regular_file =
  readable :: bool
  writable :: bool
  data :: "byte list"

type_synonym filesystem = "(path \<times> regular_file) list"

text \<open>
  \<^verbatim>\<open>version.rglob("*.[mM][dD]")\<close>: the files anywhere below the directory
  \<open>version\<close> whose name matches the pattern.
\<close>

definition rglob :: "path \<Rightarrow> filesystem \<Rightarrow> path list" where
  "rglob version fs =
     filter (\<lambda>p. prefix (version @ ''/'') p \<and> match_md (path_name p)) (map fst fs)"

datatype py_exception =
    KeyError string
  | AttributeError
  | ValidationError
  | FileNotFoundError
  | PermissionError
  | YAMLError
  | UnicodeDecodeError
  | ConnectionError

text \<open>\<^verbatim>\<open>file.stat().st_size\<close>\<close>

definition st_size :: "filesystem \<Rightarrow> path \<Rightarrow> py_exception + nat" where
  "st_size fs p =
     (case map_of fs p of
        None \<Rightarrow> Inl FileNotFoundError
      | Some f \<Rightarrow> Inr (length (data f)))"

text \<open>
  \<^verbatim>\<open>f.truncate(n)\<close> sets the size of the file to \<open>n\<close>: a longer file loses its
  tail, a shorter one is filled with zero bytes.
\<close>

definition truncate_bytes :: "nat \<Rightarrow> byte list \<Rightarrow> byte list" where
  "truncate_bytes n bs = take n bs @ replicate (n - length bs) 0"

text \<open>\<^verbatim>\<open>with open(file, "r+b") as f: f.truncate(n)\<close>\<close>

definition truncate_file :: "filesystem \<Rightarrow> path \<Rightarrow> nat \<Rightarrow> py_exception + filesystem" where
  "truncate_file fs p n =
     (case map_of fs p of
        None \<Rightarrow> Inl FileNotFoundError
      | Some f \<Rightarrow>
          if readable f \<and> writable f
          then Inr (map (\<lambda>(q, g). if q = p then (q, g\<lparr>data := truncate_bytes n (data g)\<rparr>) else (q, g)) fs)
          else Inl PermissionError)"

subsection \<open>The collector loop of \<^verbatim>\<open>build_index\<close>\<close>

definition EXCLUDED_FILES :: "string set" where
  "EXCLUDED_FILES = {''gdpr-banner'', ''menu''}"

definition EXCLUDED_DIRS :: "string set" where
  "EXCLUDED_DIRS = {''main-concepts''}"

text \<open>
  The \<^verbatim>\<open>for file in version.rglob(...)\<close> loop: the paths still to visit, the file
  system as the truncations so far have left it, and \<^verbatim>\<open>results\<close>. An exception
  of \<^verbatim>\<open>stat\<close> or \<^verbatim>\<open>open\<close> ends the loop.
\<close>

fun collect :: "path list \<Rightarrow> filesystem \<Rightarrow> path list \<Rightarrow> (py_exception + path list) \<times> filesystem" where
  "collect [] fs results = (Inr results, fs)"
| "collect (file # rest) fs results =
     (if stem file \<notin> EXCLUDED_FILES then
        if \<not> (\<exists>substring \<in> EXCLUDED_DIRS. str_contains substring file) then
          (case st_size fs file of
             Inl e \<Rightarrow> (Inl e, fs)
           | Inr st_size_file \<Rightarrow>
               if st_size_file > 100000 then
                 (case truncate_file fs file 100000 of
                    Inl e \<Rightarrow> (Inl e, fs)
                  | Inr fs' \<Rightarrow> collect rest fs' (results @ [file]))
               else collect rest fs (results @ [file]))
        else collect rest fs results
      else collect rest fs results)"

subsection \<open>Front matter and documents\<close>

text \<open>
  The values a YAML front matter holds (floats and dates are left out). The metadata
  of a page is a dictionary from keys to such values.
\<close>

datatype yaml_value =
    VNull
  | VBool bool
  | VInt int
  | VStr string
  | VList "yaml_value list"
  | VDict "(string \<times> yaml_value) list"

record page =
  metadata :: "string \<rightharpoonup> yaml_value"
  content :: string

text \<open>Python's truth value of an object, as \<^verbatim>\<open>if page.metadata.get("collate")\<close> takes it.\<close>

fun truthy :: "yaml_value option \<Rightarrow> bool" where
  "truthy None = False"
| "truthy (Some VNull) = False"
| "truthy (Some (VBool b)) = b"
| "truthy (Some (VInt i)) = (i \<noteq> 0)"
| "truthy (Some (VStr s)) = (s \<noteq> [])"
| "truthy (Some (VList vs)) = (vs \<noteq> [])"
| "truthy (Some (VDict kvs)) = (kvs \<noteq> [])"

record AlgoliaDoc =
  objectID :: string
  title :: string
  description :: "string option"
  categories :: "string list"
  content_field :: string

text \<open>
  The libraries the script calls and its environment, which are not part of it:
  \<^item> \<open>frontmatter_load\<close>: decoding the bytes of a file and parsing them into a page,
    or the exception the parser raises;
  \<^item> \<open>str_coerce\<close>: what the validation of a \<^verbatim>\<open>str\<close> field of the document model
    makes of a value that is neither a string nor \<^verbatim>\<open>None\<close> (the result, or
    \<open>None\<close> for a rejection);
  \<^item> \<open>replace_all_objects\<close>: the call that replaces an index of the search service;
  \<^item> \<open>ALGOLIA_INDEX\<close>: the environment variable, \<open>None\<close> when it is not set.
\<close>

type_synonym remote = "string \<rightharpoonup> AlgoliaDoc list"

record libs =
  frontmatter_load :: "byte list \<Rightarrow> py_exception + page"
  str_coerce :: "yaml_value \<Rightarrow> string option"
  replace_all_objects :: "string \<Rightarrow> AlgoliaDoc list \<Rightarrow> remote \<Rightarrow> py_exception + remote"
  ALGOLIA_INDEX :: "string option"

text \<open>Validation of a required \<^verbatim>\<open>str\<close> field and of an \<^verbatim>\<open>Optional[str]\<close> field.\<close>

fun validate_str :: "libs \<Rightarrow> yaml_value \<Rightarrow> string option" where
  "validate_str L (VStr s) = Some s"
| "validate_str L VNull = None"
| "validate_str L v = str_coerce L v"

fun validate_optional_str :: "libs \<Rightarrow> yaml_value option \<Rightarrow> string option option" where
  "validate_optional_str L None = Some None"
| "validate_optional_str L (Some VNull) = Some None"
| "validate_optional_str L (Some v) = map_option Some (validate_str L v)"

text \<open>
  The constructor call \<^verbatim>\<open>AlgoliaDoc(objectID=..., title=..., ...)\<close>: the fields
  are validated and a rejected one raises the validation error. \<open>categories\<close> and
  \<open>content\<close> are already a list of strings and a string when the call is made.
\<close>

definition mk_AlgoliaDoc ::
  "libs \<Rightarrow> yaml_value \<Rightarrow> yaml_value \<Rightarrow> yaml_value option \<Rightarrow> string list \<Rightarrow> string
     \<Rightarrow> py_exception + AlgoliaDoc" where
  "mk_AlgoliaDoc L oid ttl descr cats cont =
     (case (validate_str L oid, validate_str L ttl, validate_optional_str L descr) of
        (Some oid', Some ttl', Some descr') \<Rightarrow>
          Inr \<lparr>objectID = oid', title = ttl', description = descr',
               categories = cats, content_field = cont\<rparr>
      | _ \<Rightarrow> Inl ValidationError)"

text \<open>
  \<^verbatim>\<open>str(err)\<close> of the \<^verbatim>\<open>KeyError\<close> that \<^verbatim>\<open>page.metadata[key]\<close> raises:
  the key between single quotes. \<open>KeyError\<close> carries this text.
\<close>

definition missing_key :: "string \<Rightarrow> py_exception" where
  "missing_key k = KeyError (CHR 0x27 # k @ [CHR 0x27])"

text \<open>
  The body of the \<^verbatim>\<open>try\<close> block once the page is loaded. The arguments of the
  constructor are evaluated from left to right: the two subscripts, then
  \<^verbatim>\<open>.get("description")\<close>, then \<^verbatim>\<open>.lstrip("/").split("/")\<close> on the slug, which
  only a string has.
\<close>

definition doc_of_page :: "libs \<Rightarrow> page \<Rightarrow> py_exception + AlgoliaDoc option" where
  "doc_of_page L pg =
     (if truthy (metadata pg ''collate'') then Inr None
      else
        (case metadata pg ''slug'' of
           None \<Rightarrow> Inl (missing_key ''slug'')
         | Some slug \<Rightarrow>
             (case metadata pg ''title'' of
                None \<Rightarrow> Inl (missing_key ''title'')
              | Some ttl \<Rightarrow>
                  (case slug of
                     VStr s \<Rightarrow>
                       (case mk_AlgoliaDoc L slug ttl (metadata pg ''description'')
                               (split CHR ''/'' (lstrip ''/'' s))
                               (get_page_content (content pg)) of
                          Inl e \<Rightarrow> Inl e
                        | Inr doc \<Rightarrow> Inr (Some doc))
                   | _ \<Rightarrow> Inl AttributeError))))"

text \<open>\<^verbatim>\<open>with open(file.absolute()) as f: page = frontmatter.load(f)\<close>\<close>

definition open_and_load :: "libs \<Rightarrow> filesystem \<Rightarrow> path \<Rightarrow> py_exception + page" where
  "open_and_load L fs file =
     (case map_of fs file of
        None \<Rightarrow> Inl FileNotFoundError
      | Some f \<Rightarrow> if readable f then frontmatter_load L (data f) else Inl PermissionError)"

definition warning_text :: "path \<Rightarrow> string \<Rightarrow> string" where
  "warning_text file err = ''Error processing file at '' @ file @ '' - ['' @ err @ '']. Skipping...''"

text \<open>
  \<^verbatim>\<open>get_algolia_doc_from_file\<close>: the result, or the exception that leaves the
  function, and the warnings logged. \<^verbatim>\<open>except KeyError\<close> is the only handler, and
  the \<^verbatim>\<open>try\<close> block holds the opening and the parsing too.
\<close>

definition get_algolia_doc_from_file ::
  "libs \<Rightarrow> filesystem \<Rightarrow> path \<Rightarrow> (py_exception + AlgoliaDoc option) \<times> string list" where
  "get_algolia_doc_from_file L fs file =
     (case (case open_and_load L fs file of
              Inl e \<Rightarrow> Inl e
            | Inr pg \<Rightarrow> doc_of_page L pg) of
        Inl (KeyError err) \<Rightarrow> (Inr None, [warning_text file err])
      | Inl e \<Rightarrow> (Inl e, [])
      | Inr r \<Rightarrow> (Inr r, []))"

subsection \<open>The rest of \<^verbatim>\<open>build_index\<close>, and \<^verbatim>\<open>build_indexes\<close>\<close>

text \<open>
  \<^verbatim>\<open>docs = [json.loads(doc.json()) for doc in algolia_docs if doc]\<close> over the lazy
  \<^verbatim>\<open>algolia_docs\<close>: the files are read one after the other, an absent result is
  left out, and an exception ends the comprehension. The warnings logged so far stay.
\<close>

fun extract_docs :: "libs \<Rightarrow> filesystem \<Rightarrow> path list \<Rightarrow> (py_exception + AlgoliaDoc list) \<times> string list" where
  "extract_docs L fs [] = (Inr [], [])"
| "extract_docs L fs (pg # rest) =
     (case get_algolia_doc_from_file L fs pg of
        (Inl e, lg) \<Rightarrow> (Inl e, lg)
      | (Inr doc, lg) \<Rightarrow>
          (case extract_docs L fs rest of
             (Inl e, lg') \<Rightarrow> (Inl e, lg @ lg')
           | (Inr docs, lg') \<Rightarrow>
               (Inr (case doc of None \<Rightarrow> docs | Some d \<Rightarrow> d # docs), lg @ lg')))"

definition build_algolia_index_name :: "libs \<Rightarrow> string \<Rightarrow> string" where
  "build_algolia_index_name L version =
     (case ALGOLIA_INDEX L of None \<Rightarrow> ''None'' | Some s \<Rightarrow> s) @ ''-'' @ version"

record world =
  files :: filesystem
  indexes :: remote
  warnings :: "string list"

text \<open>
  \<^verbatim>\<open>build_index(version)\<close>: the exception that ends it, if any, and the world it
  leaves. Truncations and warnings that happened before an exception stay.
\<close>

definition build_index :: "libs \<Rightarrow> path \<Rightarrow> world \<Rightarrow> py_exception option \<times> world" where
  "build_index L version w =
     (case collect (rglob version (files w)) (files w) [] of
        (Inl e, fs') \<Rightarrow> (Some e, w\<lparr>files := fs'\<rparr>)
      | (Inr results, fs') \<Rightarrow>
          (case extract_docs L fs' results of
             (Inl e, lg) \<Rightarrow> (Some e, w\<lparr>files := fs', warnings := warnings w @ lg\<rparr>)
           | (Inr docs, lg) \<Rightarrow>
               (case replace_all_objects L (build_algolia_index_name L (path_name version))
                       docs (indexes w) of
                  Inl e \<Rightarrow> (Some e, w\<lparr>files := fs', warnings := warnings w @ lg\<rparr>)
                | Inr r \<Rightarrow> (None, \<lparr>files = fs', indexes = r, warnings = warnings w @ lg\<rparr>))))"

text \<open>
  \<^verbatim>\<open>build_indexes\<close> runs \<^verbatim>\<open>build_index\<close> on the version directories, which
  \<^verbatim>\<open>Path("content").glob("v*")\<close> has listed before the loop starts; the first
  exception ends the run.
\<close>

fun build_indexes :: "libs \<Rightarrow> path list \<Rightarrow> world \<Rightarrow> py_exception option \<times> world" where
  "build_indexes L [] w = (None, w)"
| "build_indexes L (version # versions) w =
     (case build_index L version w of
        (Some e, w') \<Rightarrow> (Some e, w')
      | (None, w') \<Rightarrow> build_indexes L versions w')"

subsection \<open>Notions of the specification and of the properties\<close>

text \<open>
  The specification derives the categories by removing a single leading separator
  from the slug and splitting the rest.
\<close>

fun strip_one_leading :: "char \<Rightarrow> string \<Rightarrow> string" where
  "strip_one_leading sep [] = []"
| "strip_one_leading sep (c # cs) = (if c = sep then cs else c # cs)"

definition spec_categories :: "string \<Rightarrow> string list" where
  "spec_categories slug = split CHR ''/'' (strip_one_leading CHR ''/'' slug)"

text \<open>\<^verbatim>\<open>sep.join(fields)\<close>, the inverse of splitting.\<close>

fun join :: "char \<Rightarrow> string list \<Rightarrow> string" where
  "join sep [] = []"
| "join sep [w] = w"
| "join sep (w # v # ws) = w @ sep # join sep (v # ws)"

text \<open>The characters that content cleaning keeps: all but the newline and \<open>#\<close>.\<close>

definition kept_char :: "char \<Rightarrow> bool" where
  "kept_char c = (c \<noteq> CHR 0x0A \<and> c \<noteq> CHR ''#'')"

text \<open>A text has a removable span when some \<open><\<close> in it has a \<open>>\<close> behind it.\<close>

fun has_span :: "string \<Rightarrow> bool" where
  "has_span [] = False"
| "has_span (c # cs) = ((c = CHR ''<'' \<and> CHR ''>'' \<in> set cs) \<or> has_span cs)"

text \<open>
  The files that pass the two exclusion tests of the collector loop, and those among
  them that the loop truncates.
\<close>

definition candidate :: "path \<Rightarrow> bool" where
  "candidate p \<longleftrightarrow>
     stem p \<notin> EXCLUDED_FILES \<and> \<not> (\<exists>substring \<in> EXCLUDED_DIRS. str_contains substring p)"

text \<open>What the collector loop makes of a file \<open>f\<close> stored at \<open>p\<close>.\<close>

definition after_pass :: "path list \<Rightarrow> path \<Rightarrow> regular_file \<Rightarrow> regular_file" where
  "after_pass paths p f =
     (if p \<in> set paths \<and> candidate p \<and> length (data f) > 100000
      then f\<lparr>data := take 100000 (data f)\<rparr> else f)"

text \<open>The exceptions that \<^verbatim>\<open>except KeyError\<close> catches.\<close>

fun is_KeyError :: "py_exception \<Rightarrow> bool" where
  "is_KeyError (KeyError err) = True"
| "is_KeyError e = False"


subsection \<open>Example data\<close>

text \<open>
  A strict document model (only a string is accepted for a \<^verbatim>\<open>str\<close> field) and a
  search service that stores what it is given.
\<close>

definition store_objects :: "string \<Rightarrow> AlgoliaDoc list \<Rightarrow> remote \<Rightarrow> py_exception + remote" where
  "store_objects name docs r = Inr (r(name \<mapsto> docs))"

definition intro_page :: page where
  "intro_page =
     \<lparr>metadata = [''slug'' \<mapsto> VStr ''/a/b/c'', ''title'' \<mapsto> VStr ''Intro''],
      content = ''# Hello <span>world</span>'' @ [CHR 0x0A] @ ''text''\<rparr>"

definition double_slash_page :: page where
  "double_slash_page =
     \<lparr>metadata = [''slug'' \<mapsto> VStr ''//a'', ''title'' \<mapsto> VStr ''T''], content = []\<rparr>"

definition strict_libs :: libs where
  "strict_libs =
     \<lparr>frontmatter_load = (\<lambda>bs. Inl YAMLError),
      str_coerce = (\<lambda>v. None),
      replace_all_objects = store_objects,
      ALGOLIA_INDEX = Some ''DOCS''\<rparr>"

text \<open>
  A version directory with an oversized page, a page of two bytes under a subdirectory,
  a menu page, a page whose name holds an excluded substring, and a file that is not
  markdown.
\<close>

definition small_file :: regular_file where
  "small_file = \<lparr>readable = True, writable = True, data = [0x68, 0x69]\<rparr>"

definition big_file :: regular_file where
  "big_file = \<lparr>readable = True, writable = True, data = replicate 100001 0x61\<rparr>"

definition capped_file :: regular_file where
  "capped_file = \<lparr>readable = True, writable = True, data = replicate 100000 0x61\<rparr>"

definition example_fs :: filesystem where
  "example_fs =
     [(''content/v1/a.md'', big_file),
      (''content/v1/menu.md'', small_file),
      (''content/v1/main-concepts-overview.md'', small_file),
      (''content/v1/deep/b.MD'', small_file),
      (''content/v1/notes.txt'', small_file)]"

definition example_fs_after :: filesystem where
  "example_fs_after =
     [(''content/v1/a.md'', capped_file),
      (''content/v1/menu.md'', small_file),
      (''content/v1/main-concepts-overview.md'', small_file),
      (''content/v1/deep/b.MD'', small_file),
      (''content/v1/notes.txt'', small_file)]"

text \<open>
  Pages for the extractor: one flagged as internal, with no slug and no title; one
  without a title; one whose slug is null and whose title is missing; one whose title is
  null. The parser of \<open>table_libs\<close> knows these pages by the bytes of their files and
  fails on every other file.
\<close>

definition collate_page :: page where
  "collate_page = \<lparr>metadata = [''collate'' \<mapsto> VBool True], content = ''internal''\<rparr>"

definition untitled_page :: page where
  "untitled_page = \<lparr>metadata = [''slug'' \<mapsto> VStr ''/x''], content = ''body''\<rparr>"

definition null_slug_page :: page where
  "null_slug_page = \<lparr>metadata = [''slug'' \<mapsto> VNull], content = ''body''\<rparr>"

definition null_title_page :: page where
  "null_title_page =
     \<lparr>metadata = [''slug'' \<mapsto> VStr ''/x'', ''title'' \<mapsto> VNull], content = ''body''\<rparr>"

definition table_load :: "byte list \<Rightarrow> py_exception + page" where
  "table_load bs =
     (if bs = [1] then Inr intro_page
      else if bs = [2] then Inr collate_page
      else if bs = [3] then Inr untitled_page
      else if bs = [4] then Inr null_slug_page
      else if bs = [5] then Inr null_title_page
      else Inl YAMLError)"

definition table_libs :: libs where
  "table_libs =
     \<lparr>frontmatter_load = table_load,
      str_coerce = (\<lambda>v. None),
      replace_all_objects = store_objects,
      ALGOLIA_INDEX = Some ''DOCS''\<rparr>"

definition page_file :: "byte \<Rightarrow> regular_file" where
  "page_file b = \<lparr>readable = True, writable = True, data = [b]\<rparr>"

definition pages_fs :: filesystem where
  "pages_fs =
     [(''content/v1/intro.md'', page_file 1),
      (''content/v1/internal.md'', page_file 2),
      (''content/v1/untitled.md'', page_file 3),
      (''content/v1/nullslug.md'', page_file 4),
      (''content/v1/nulltitle.md'', page_file 5),
      (''content/v1/broken.md'', page_file 9),
      (''content/v1/secret.md'', \<lparr>readable = False, writable = False, data = [1]\<rparr>)]"

text \<open>A parser that raises a \<open>KeyError\<close> on every file.\<close>

definition keyerror_libs :: libs where
  "keyerror_libs =
     \<lparr>frontmatter_load = (\<lambda>bs. Inl (KeyError ''anchor'')),
      str_coerce = (\<lambda>v. None),
      replace_all_objects = store_objects,
      ALGOLIA_INDEX = Some ''DOCS''\<rparr>"

section \<open>Properties\<close>

subsection \<open>Strings\<close>

lemma lstrip_dropWhile: "lstrip chars s = dropWhile (\<lambda>c. c \<in> set chars) s"
  by (induction s) simp_all

lemma lstrip_single: "\<not> prefix [sep, sep] s \<Longrightarrow> lstrip [sep] s = strip_one_leading sep s"
proof (cases s)
  case Nil
  then show ?thesis by simp
next
  case (Cons c cs)
  assume np: "\<not> prefix [sep, sep] s"
  show ?thesis
  proof (cases "c = sep")
    case False
    with Cons show ?thesis by simp
  next
    case True
    with np Cons have "cs = [] \<or> hd cs \<noteq> sep"
      by (cases cs) auto
    then have "lstrip [sep] cs = cs"
      by (cases cs) auto
    with True Cons show ?thesis by simp
  qed
qed

lemma split_not_Nil: "split sep s \<noteq> []"
  by (induction s) (auto split: list.splits)

text \<open>The fields of \<open>split\<close> hold no separator, and joined by it they give the text back.\<close>

lemma split_no_sep: "w \<in> set (split sep s) \<Longrightarrow> sep \<notin> set w"
proof (induction s arbitrary: w)
  case Nil
  then show ?case by simp
next
  case (Cons c cs)
  show ?case
  proof (cases "c = sep")
    case True
    with Cons show ?thesis by auto
  next
    case False
    obtain v vs where vs: "split sep cs = v # vs"
      using split_not_Nil [of sep cs] by (cases "split sep cs") auto
    with Cons.prems False have "w = c # v \<or> w \<in> set vs" by auto
    moreover have "sep \<notin> set v" using Cons.IH [of v] vs by simp
    moreover have "w \<in> set vs \<Longrightarrow> sep \<notin> set w" using Cons.IH [of w] vs by simp
    ultimately show ?thesis using False by auto
  qed
qed

lemma split_join: "join sep (split sep s) = s"
proof (induction s)
  case Nil
  then show ?case by simp
next
  case (Cons c cs)
  obtain v vs where vs: "split sep cs = v # vs"
    using split_not_Nil [of sep cs] by (cases "split sep cs") auto
  with Cons show ?case
    by (cases vs) auto
qed

subsection \<open>Content cleaning\<close>

lemma find_close_None_iff: "find_close cs = None \<longleftrightarrow> CHR ''>'' \<notin> set cs"
  by (induction cs) auto

lemma find_close_None: "CHR ''>'' \<notin> set cs \<Longrightarrow> find_close cs = None"
  by (simp add: find_close_None_iff)

lemma find_close_span: "CHR ''>'' \<notin> set span \<Longrightarrow> find_close (span @ CHR ''>'' # ys) = Some ys"
  by (induction span) auto

lemma find_close_Some_decomp:
  "find_close cs = Some rest \<Longrightarrow> \<exists>span. cs = span @ CHR ''>'' # rest \<and> CHR ''>'' \<notin> set span"
proof (induction cs)
  case Nil
  then show ?case by simp
next
  case (Cons c cs)
  show ?case
  proof (cases "c = CHR ''>''")
    case True
    with Cons.prems have "rest = cs" by simp
    then show ?thesis using True by (intro exI [of _ "[]"]) simp
  next
    case False
    with Cons obtain span where "cs = span @ CHR ''>'' # rest" "CHR ''>'' \<notin> set span"
      by auto
    then show ?thesis using False by (intro exI [of _ "c # span"]) simp
  qed
qed

lemma sub_no_open:
  "CHR ''<'' \<notin> set xs \<Longrightarrow> CONTENT_REGEX_sub (xs @ ys) = xs @ CONTENT_REGEX_sub ys"
  by (induction xs) auto

text \<open>The substitution only deletes: its result is a subsequence of the text.\<close>

lemma sub_subseq: "subseq (CONTENT_REGEX_sub s) s"
proof (induction s rule: CONTENT_REGEX_sub.induct)
  case 1
  then show ?case by simp
next
  case (2 c cs)
  show ?case
  proof (cases "c = CHR ''<''")
    case False
    with 2 show ?thesis by simp
  next
    case True
    show ?thesis
    proof (cases "find_close cs")
      case None
      with True 2 show ?thesis by simp
    next
      case (Some rest)
      then obtain span where cs: "cs = span @ CHR ''>'' # rest"
        using find_close_Some_decomp by blast
      have "subseq (CONTENT_REGEX_sub rest) rest"
        using 2 True Some by simp
      then have "subseq (CONTENT_REGEX_sub rest) ((c # span @ [CHR ''>'']) @ rest)"
        by (rule list_emb_append2)
      then have "subseq (CONTENT_REGEX_sub rest) (c # cs)"
        by (simp add: cs)
      then show ?thesis using True Some by simp
    qed
  qed
qed

lemma sub_set: "set (CONTENT_REGEX_sub s) \<subseteq> set s"
proof
  fix x assume "x \<in> set (CONTENT_REGEX_sub s)"
  with sub_subseq [of s] obtain y where "y \<in> set s" "x = y"
    by (rule list_emb_set)
  then show "x \<in> set s" by simp
qed

lemma sub_no_span: "\<not> has_span (CONTENT_REGEX_sub s)"
proof (induction s rule: CONTENT_REGEX_sub.induct)
  case 1
  then show ?case by simp
next
  case (2 c cs)
  show ?case using 2 sub_set [of cs]
    by (auto simp: find_close_None_iff split: option.splits)
qed

lemma no_span_sub: "\<not> has_span s \<Longrightarrow> CONTENT_REGEX_sub s = s"
proof (induction s)
  case Nil
  then show ?case by simp
next
  case (Cons c cs)
  then have "CONTENT_REGEX_sub cs = cs" by simp
  moreover have "c = CHR ''<'' \<Longrightarrow> find_close cs = None"
    using Cons.prems by (simp add: find_close_None_iff)
  ultimately show ?case by auto
qed

lemma no_close_no_span: "CHR ''>'' \<notin> set zs \<Longrightarrow> \<not> has_span zs"
  by (induction zs) auto

lemma has_span_filter: "has_span (filter P s) \<Longrightarrow> has_span s"
  by (induction s) (auto split: if_splits)

lemma has_span_intro: "has_span (xs @ CHR ''<'' # span @ CHR ''>'' # ys)"
  by (induction xs) auto

lemma gpc_filter: "get_page_content s = filter kept_char (CONTENT_REGEX_sub s)"
  by (simp add: get_page_content_def replace_empty_def kept_char_def [abs_def] conj_commute)

lemma gpc_no_span: "\<not> has_span (get_page_content s)"
  unfolding gpc_filter
  using has_span_filter [of kept_char "CONTENT_REGEX_sub s"] sub_no_span [of s] by blast

lemma gpc_idem: "get_page_content (get_page_content s) = get_page_content s"
proof -
  have a: "CONTENT_REGEX_sub (get_page_content s) = get_page_content s"
    using gpc_no_span by (rule no_span_sub)
  have "get_page_content (get_page_content s) = filter kept_char (CONTENT_REGEX_sub (get_page_content s))"
    by (rule gpc_filter)
  also have "\<dots> = filter kept_char (get_page_content s)"
    by (simp only: a)
  also have "\<dots> = filter kept_char (filter kept_char (CONTENT_REGEX_sub s))"
    by (simp only: gpc_filter)
  also have "\<dots> = filter kept_char (CONTENT_REGEX_sub s)"
    by simp
  also have "\<dots> = get_page_content s"
    by (simp only: gpc_filter)
  finally show ?thesis .
qed

text \<open>
  Claim C4. For every body text, \<open>get_page_content\<close> removes every span from a \<open><\<close>
  to the first \<open>>\<close> behind it (whatever the span holds, newlines included), every
  newline and every \<open>#\<close>, and changes nothing else. Any text is of one of three
  shapes, and the result is given for each: a text without \<open><\<close> loses only its
  newlines and \<open>#\<close>; a text that starts with a span loses the span, the part before
  it is filtered and the part behind it is cleaned in the same way; a \<open><\<close> with no
  \<open>>\<close> behind it stays, with the filtered text around it. The result is a
  subsequence of the input, so link text, emphasis markers and list bullets stay.
\<close>

theorem get_page_content_removes_spans_newlines_hashes:
  "(CHR ''<'' \<notin> set xs \<longrightarrow> get_page_content xs = filter kept_char xs)
 \<and> (CHR ''<'' \<notin> set xs \<and> CHR ''>'' \<notin> set span \<longrightarrow>
      get_page_content (xs @ CHR ''<'' # span @ CHR ''>'' # ys)
        = filter kept_char xs @ get_page_content ys)
 \<and> (CHR ''<'' \<notin> set xs \<and> CHR ''>'' \<notin> set zs \<longrightarrow>
      get_page_content (xs @ CHR ''<'' # zs)
        = filter kept_char xs @ CHR ''<'' # filter kept_char zs)
 \<and> subseq (get_page_content s) s"
proof (intro conjI impI)
  assume "CHR ''<'' \<notin> set xs"
  then show "get_page_content xs = filter kept_char xs"
    using sub_no_open [of xs "[]"] by (simp add: gpc_filter)
next
  assume "CHR ''<'' \<notin> set xs \<and> CHR ''>'' \<notin> set span"
  then show "get_page_content (xs @ CHR ''<'' # span @ CHR ''>'' # ys)
               = filter kept_char xs @ get_page_content ys"
    by (simp add: gpc_filter sub_no_open find_close_span)
next
  assume "CHR ''<'' \<notin> set xs \<and> CHR ''>'' \<notin> set zs"
  then show "get_page_content (xs @ CHR ''<'' # zs)
               = filter kept_char xs @ CHR ''<'' # filter kept_char zs"
    by (simp add: gpc_filter sub_no_open find_close_None no_close_no_span no_span_sub kept_char_def)
next
  have "subseq (filter kept_char (CONTENT_REGEX_sub s)) (CONTENT_REGEX_sub s)"
    by simp
  then show "subseq (get_page_content s) s"
    unfolding gpc_filter using sub_subseq [of s] by (rule subseq_order.trans)
qed

theorem get_page_content_removes_spans_newlines_hashes_witness:
  "CHR ''<'' \<notin> set ''- *a* [t](u) ''
 \<and> CHR ''>'' \<notin> set (''b'' @ [CHR 0x0A] @ ''<i'')
 \<and> CHR ''>'' \<notin> set '' d''
 \<and> get_page_content ''- *a* [t](u) '' = ''- *a* [t](u) ''
 \<and> get_page_content (''- *a* [t](u) '' @ CHR ''<'' # (''b'' @ [CHR 0x0A] @ ''<i'') @ CHR ''>'' # ''#c'')
      = ''- *a* [t](u) c''
 \<and> get_page_content (''- *a* [t](u) '' @ CHR ''<'' # '' d'') = ''- *a* [t](u) < d''
 \<and> subseq (get_page_content ''<x>y'') ''<x>y''"
  using get_page_content_removes_spans_newlines_hashes
          [of "''- *a* [t](u) ''" "''b'' @ [CHR 0x0A] @ ''<i''" "''#c''" "'' d''" "''<x>y''"]
  by (simp add: get_page_content_def replace_empty_def kept_char_def)

text \<open>
  Claim C5. Content cleaning is idempotent, and its result holds no newline, no \<open>#\<close>
  and no removable span (no \<open><\<close> with a \<open>>\<close> anywhere behind it).
\<close>

theorem get_page_content_idempotent:
  "get_page_content (get_page_content s) = get_page_content s
 \<and> CHR 0x0A \<notin> set (get_page_content s)
 \<and> CHR ''#'' \<notin> set (get_page_content s)
 \<and> \<not> (\<exists>xs span ys. get_page_content s = xs @ CHR ''<'' # span @ CHR ''>'' # ys)"
proof (intro conjI)
  show "get_page_content (get_page_content s) = get_page_content s"
    by (rule gpc_idem)
  show "CHR 0x0A \<notin> set (get_page_content s)"
    unfolding gpc_filter by (simp add: kept_char_def)
  show "CHR ''#'' \<notin> set (get_page_content s)"
    unfolding gpc_filter by (simp add: kept_char_def)
  show "\<not> (\<exists>xs span ys. get_page_content s = xs @ CHR ''<'' # span @ CHR ''>'' # ys)"
  proof
    assume "\<exists>xs span ys. get_page_content s = xs @ CHR ''<'' # span @ CHR ''>'' # ys"
    then obtain xs span ys where eq: "get_page_content s = xs @ CHR ''<'' # span @ CHR ''>'' # ys"
      by blast
    have "has_span (xs @ CHR ''<'' # span @ CHR ''>'' # ys)"
      by (rule has_span_intro)
    then have "has_span (get_page_content s)"
      unfolding eq .
    then show False using gpc_no_span by blast
  qed
qed

subsection \<open>Categories\<close>

text \<open>
  Claim C3, as the specification states it, fails: \<^verbatim>\<open>lstrip("/")\<close> removes every
  leading separator, not one. For the slug \<open>//a\<close> the document has the categories
  \<open>[a]\<close>, while removing one separator and splitting gives \<open>[, a]\<close>.
\<close>

theorem categories_single_strip_counterexample:
  "doc_of_page strict_libs double_slash_page
     = Inr (Some \<lparr>objectID = ''//a'', title = ''T'', description = None,
                  categories = [''a''], content_field = []\<rparr>)
 \<and> spec_categories ''//a'' = [[], ''a'']
 \<and> [''a''] \<noteq> spec_categories ''//a''"
  by (simp add: doc_of_page_def double_slash_page_def strict_libs_def mk_AlgoliaDoc_def
        spec_categories_def get_page_content_def replace_empty_def)

text \<open>
  Claim C3, amended. The categories of a produced document are the slug without all
  of its leading separators, split at the separators. For a slug that does not start
  with two separators this is the slug without a single leading separator, split.
\<close>

theorem categories_strip_all_leading:
  assumes "doc_of_page L pg = Inr (Some doc)"
    and "metadata pg ''slug'' = Some (VStr slug)"
  shows "categories doc = split CHR ''/'' (dropWhile (\<lambda>c. c = CHR ''/'') slug)
       \<and> (\<not> prefix ''//'' slug \<longrightarrow> categories doc = spec_categories slug)"
proof -
  have cats: "categories doc = split CHR ''/'' (lstrip ''/'' slug)"
    using assms
    by (auto simp: doc_of_page_def mk_AlgoliaDoc_def
             split: if_splits option.splits sum.splits)
  have "lstrip ''/'' slug = dropWhile (\<lambda>c. c = CHR ''/'') slug"
    by (simp add: lstrip_dropWhile)
  moreover have "\<not> prefix ''//'' slug \<Longrightarrow> lstrip ''/'' slug = strip_one_leading CHR ''/'' slug"
    by (rule lstrip_single)
  ultimately show ?thesis
    using cats by (simp add: spec_categories_def)
qed

theorem categories_strip_all_leading_witness:
  "doc_of_page strict_libs intro_page
     = Inr (Some \<lparr>objectID = ''/a/b/c'', title = ''Intro'', description = None,
                  categories = [''a'', ''b'', ''c''], content_field = '' Hello worldtext''\<rparr>)
 \<and> metadata intro_page ''slug'' = Some (VStr ''/a/b/c'')
 \<and> \<not> prefix ''//'' ''/a/b/c''
 \<and> spec_categories ''/a/b/c'' = [''a'', ''b'', ''c'']"
proof -
  have d: "doc_of_page strict_libs intro_page
     = Inr (Some \<lparr>objectID = ''/a/b/c'', title = ''Intro'', description = None,
                  categories = [''a'', ''b'', ''c''], content_field = '' Hello worldtext''\<rparr>)"
    by (simp add: doc_of_page_def intro_page_def strict_libs_def mk_AlgoliaDoc_def
          get_page_content_def replace_empty_def)
  have m: "metadata intro_page ''slug'' = Some (VStr ''/a/b/c'')"
    by (simp add: intro_page_def)
  show ?thesis
    using categories_strip_all_leading [OF d m] d m by simp
qed

subsection \<open>The collector\<close>

lemma str_contains_intro: "str_contains sub (pre @ sub @ post)"
proof (induction pre)
  case Nil
  have "prefix sub (sub @ post)"
    by simp
  then show ?case
    by (cases "sub @ post") auto
next
  case (Cons x pre)
  then show ?case by simp
qed

lemma str_contains_elim: "str_contains sub s \<Longrightarrow> \<exists>pre post. s = pre @ sub @ post"
proof (induction s)
  case Nil
  then show ?case by simp
next
  case (Cons c cs)
  show ?case
  proof (cases "prefix sub (c # cs)")
    case True
    then obtain post where "c # cs = [] @ sub @ post"
      by (auto simp: prefix_def)
    then show ?thesis by blast
  next
    case False
    with Cons.prems have "str_contains sub cs" by simp
    with Cons.IH obtain pre post where "cs = pre @ sub @ post" by blast
    then have "c # cs = (c # pre) @ sub @ post" by simp
    then show ?thesis by blast
  qed
qed

lemma path_name_suffix: "\<exists>dir. p = dir @ path_name p"
proof -
  let ?P = "\<lambda>c. c \<noteq> CHR ''/''"
  have "rev (dropWhile ?P (rev p)) @ rev (takeWhile ?P (rev p))
          = rev (takeWhile ?P (rev p) @ dropWhile ?P (rev p))"
    by (simp only: rev_append)
  also have "\<dots> = rev (rev p)"
    by (simp only: takeWhile_dropWhile_id)
  also have "\<dots> = p"
    by simp
  finally have "p = rev (dropWhile ?P (rev p)) @ path_name p"
    by (simp add: path_name_def)
  then show ?thesis ..
qed

lemma str_contains_path_name: "str_contains sub (path_name p) \<Longrightarrow> str_contains sub p"
proof -
  assume "str_contains sub (path_name p)"
  then obtain pre post where n: "path_name p = pre @ sub @ post"
    using str_contains_elim by blast
  obtain dir where "p = dir @ path_name p"
    using path_name_suffix by blast
  then have "p = (dir @ pre) @ sub @ post"
    using n by simp
  then show ?thesis
    using str_contains_intro [of sub "dir @ pre" post] by simp
qed

lemma collect_results:
  "collect paths fs acc = (Inr results, fs') \<Longrightarrow> results = acc @ filter candidate paths"
proof (induction paths arbitrary: fs acc)
  case Nil
  then show ?case by simp
next
  case (Cons pth rest)
  show ?case
  proof (cases "candidate pth")
    case False
    then have "collect (pth # rest) fs acc = collect rest fs acc"
      by (auto simp: candidate_def)
    with Cons show ?thesis using False by simp
  next
    case True
    then have c: "stem pth \<notin> EXCLUDED_FILES" "\<not> (\<exists>substring \<in> EXCLUDED_DIRS. str_contains substring pth)"
      by (simp_all add: candidate_def)
    from Cons.prems c obtain fs1 where "collect rest fs1 (acc @ [pth]) = (Inr results, fs')"
      by (auto split: sum.splits if_splits)
    then have "results = (acc @ [pth]) @ filter candidate rest"
      by (rule Cons.IH)
    then show ?thesis using True by simp
  qed
qed

lemma map_of_update_data:
  "map_of (map (\<lambda>(q, g). if q = p then (q, h g) else (q, g)) fs) x
     = (if x = p then map_option h (map_of fs x) else map_of fs x)"
  by (induction fs) auto

lemma truncate_file_lookup:
  "truncate_file fs p n = Inr fs1 \<Longrightarrow>
   map_of fs1 x = (if x = p then map_option (\<lambda>g. g\<lparr>data := truncate_bytes n (data g)\<rparr>) (map_of fs x)
                   else map_of fs x)"
  by (auto simp: truncate_file_def map_of_update_data split: option.splits if_splits)

lemma after_pass_other: "p \<noteq> pth \<or> \<not> candidate pth \<Longrightarrow> after_pass (pth # rest) p = after_pass rest p"
  by (rule ext) (auto simp: after_pass_def)

lemma collect_fs:
  "collect paths fs acc = (Inr results, fs') \<Longrightarrow>
   map_of fs' p = map_option (after_pass paths p) (map_of fs p)"
proof (induction paths arbitrary: fs acc)
  case Nil
  then show ?case by (simp add: after_pass_def option.map_ident)
next
  case (Cons pth rest)
  show ?case
  proof (cases "candidate pth")
    case False
    then have "collect (pth # rest) fs acc = collect rest fs acc"
      by (auto simp: candidate_def)
    with Cons.prems have "map_of fs' p = map_option (after_pass rest p) (map_of fs p)"
      using Cons.IH by simp
    moreover have "after_pass (pth # rest) p = after_pass rest p"
      using False by (auto simp: after_pass_def fun_eq_iff)
    ultimately show ?thesis by simp
  next
    case True
    then have c: "stem pth \<notin> EXCLUDED_FILES" "\<not> (\<exists>substring \<in> EXCLUDED_DIRS. str_contains substring pth)"
      by (simp_all add: candidate_def)
    from Cons.prems c obtain f where f: "map_of fs pth = Some f"
      by (auto simp: st_size_def split: option.splits)
    show ?thesis
    proof (cases "length (data f) > 100000")
      case False
      with Cons.prems c f have "collect rest fs (acc @ [pth]) = (Inr results, fs')"
        by (simp add: st_size_def)
      then have "map_of fs' p = map_option (after_pass rest p) (map_of fs p)"
        by (rule Cons.IH)
      moreover have "map_option (after_pass (pth # rest) p) (map_of fs p) = map_option (after_pass rest p) (map_of fs p)"
        using False f by (cases "p = pth") (auto simp: after_pass_def after_pass_other)
      ultimately show ?thesis by simp
    next
      case big: True
      with Cons.prems c f obtain fs1 where
        t: "truncate_file fs pth 100000 = Inr fs1" and
        r: "collect rest fs1 (acc @ [pth]) = (Inr results, fs')"
        by (auto simp: st_size_def split: sum.splits)
      have ih: "map_of fs' p = map_option (after_pass rest p) (map_of fs1 p)"
        using r by (rule Cons.IH)
      have tb: "truncate_bytes 100000 (data f) = take 100000 (data f)"
        using big by (simp add: truncate_bytes_def)
      show ?thesis
      proof (cases "p = pth")
        case True
        have "map_of fs1 p = Some (f\<lparr>data := take 100000 (data f)\<rparr>)"
          using truncate_file_lookup [OF t, of p] True f tb by simp
        then have "map_of fs' p = Some (f\<lparr>data := take 100000 (data f)\<rparr>)"
          using ih by (simp add: after_pass_def)
        then show ?thesis
          using True f big \<open>candidate pth\<close> by (simp add: after_pass_def)
      next
        case False
        have "map_of fs1 p = map_of fs p"
          using truncate_file_lookup [OF t, of p] False by simp
        moreover have "after_pass (pth # rest) p = after_pass rest p"
          using False by (auto simp: after_pass_def fun_eq_iff)
        ultimately show ?thesis using ih by simp
      qed
    qed
  qed
qed

text \<open>The example directory, evaluated.\<close>

lemma example_rglob:
  "rglob ''content/v1'' example_fs =
     [''content/v1/a.md'', ''content/v1/menu.md'', ''content/v1/main-concepts-overview.md'',
      ''content/v1/deep/b.MD'']"
  by (simp add: rglob_def example_fs_def match_md_def path_name_def)

lemma example_stems:
  "stem ''content/v1/a.md'' = ''a''"
  "stem ''content/v1/menu.md'' = ''menu''"
  "stem ''content/v1/main-concepts-overview.md'' = ''main-concepts-overview''"
  "stem ''content/v1/deep/b.MD'' = ''b''"
  by (simp_all add: stem_def path_name_def)

lemma example_contains:
  "\<not> str_contains ''main-concepts'' ''content/v1/a.md''"
  "str_contains ''main-concepts'' ''content/v1/main-concepts-overview.md''"
  "\<not> str_contains ''main-concepts'' ''content/v1/deep/b.MD''"
  by simp_all

lemma example_truncate:
  "truncate_file example_fs ''content/v1/a.md'' 100000 = Inr example_fs_after"
  by (simp add: truncate_file_def example_fs_def example_fs_after_def big_file_def capped_file_def
        small_file_def truncate_bytes_def)

lemma example_sizes:
  "st_size example_fs ''content/v1/a.md'' = Inr 100001"
  "st_size example_fs_after ''content/v1/deep/b.MD'' = Inr 2"
  by (simp_all add: st_size_def example_fs_def example_fs_after_def big_file_def small_file_def)

lemma example_collect:
  "collect (rglob ''content/v1'' example_fs) example_fs []
     = (Inr [''content/v1/a.md'', ''content/v1/deep/b.MD''], example_fs_after)"
  by (simp add: example_rglob example_stems example_contains example_truncate example_sizes
        EXCLUDED_FILES_def EXCLUDED_DIRS_def)

text \<open>
  The loop runs to its end when every file that passes the exclusion tests exists and,
  if it is oversized, can be opened for reading and writing.
\<close>

lemma collect_completes:
  "\<forall>p \<in> set paths. candidate p \<longrightarrow>
      (\<exists>f. map_of fs p = Some f \<and> (length (data f) > 100000 \<longrightarrow> readable f \<and> writable f))
   \<Longrightarrow> \<exists>fs'. collect paths fs acc = (Inr (acc @ filter candidate paths), fs')"
proof (induction paths arbitrary: fs acc)
  case Nil
  then show ?case by simp
next
  case (Cons pth rest)
  show ?case
  proof (cases "candidate pth")
    case False
    then have "collect (pth # rest) fs acc = collect rest fs acc"
      by (auto simp: candidate_def)
    moreover have "\<exists>fs'. collect rest fs acc = (Inr (acc @ filter candidate rest), fs')"
      using Cons.prems by (intro Cons.IH) simp
    ultimately show ?thesis using False by simp
  next
    case True
    then have c: "stem pth \<notin> EXCLUDED_FILES" "\<not> (\<exists>substring \<in> EXCLUDED_DIRS. str_contains substring pth)"
      by (simp_all add: candidate_def)
    from Cons.prems True obtain f where f: "map_of fs pth = Some f"
      and rw: "length (data f) > 100000 \<Longrightarrow> readable f \<and> writable f"
      by auto
    show ?thesis
    proof (cases "length (data f) > 100000")
      case False
      then have "collect (pth # rest) fs acc = collect rest fs (acc @ [pth])"
        using c f by (simp add: st_size_def)
      moreover have "\<exists>fs'. collect rest fs (acc @ [pth]) = (Inr ((acc @ [pth]) @ filter candidate rest), fs')"
        using Cons.prems by (intro Cons.IH) simp
      ultimately show ?thesis using True by simp
    next
      case big: True
      then obtain fs1 where t: "truncate_file fs pth 100000 = Inr fs1"
        using f rw by (simp add: truncate_file_def)
      have step: "collect (pth # rest) fs acc = collect rest fs1 (acc @ [pth])"
        using c f big t by (simp add: st_size_def)
      have pre: "\<forall>p \<in> set rest. candidate p \<longrightarrow>
          (\<exists>g. map_of fs1 p = Some g \<and> (length (data g) > 100000 \<longrightarrow> readable g \<and> writable g))"
      proof (intro ballI impI)
        fix p assume p: "p \<in> set rest" "candidate p"
        with Cons.prems obtain g where g: "map_of fs p = Some g"
          and grw: "length (data g) > 100000 \<longrightarrow> readable g \<and> writable g"
          by auto
        show "\<exists>g. map_of fs1 p = Some g \<and> (length (data g) > 100000 \<longrightarrow> readable g \<and> writable g)"
        proof (cases "p = pth")
          case True
          then have "map_of fs1 p = Some (g\<lparr>data := truncate_bytes 100000 (data g)\<rparr>)"
            using truncate_file_lookup [OF t, of p] g by simp
          moreover have "length (truncate_bytes 100000 (data g)) = 100000"
            by (simp add: truncate_bytes_def)
          ultimately show ?thesis by simp
        next
          case False
          then have "map_of fs1 p = Some g"
            using truncate_file_lookup [OF t, of p] g by simp
          then show ?thesis using grw by simp
        qed
      qed
      have "\<exists>fs'. collect rest fs1 (acc @ [pth]) = (Inr ((acc @ [pth]) @ filter candidate rest), fs')"
        using pre by (rule Cons.IH)
      then show ?thesis using step True by simp
    qed
  qed
qed

text \<open>
  Claim C1. After the collector loop has run over a version directory, every file that
  the walk yields and the exclusion tests let pass is in the results; if it was larger
  than 100000 bytes, it is now the first 100000 bytes of what it was, and if it was not
  larger, it is unchanged.
\<close>

theorem collector_truncates_oversized:
  assumes "collect (rglob version fs) fs [] = (Inr results, fs')"
    and "p \<in> set (rglob version fs)"
    and "candidate p"
    and "map_of fs p = Some f"
  shows "p \<in> set results
       \<and> (length (data f) > 100000 \<longrightarrow>
            (\<exists>f'. map_of fs' p = Some f' \<and> data f' = take 100000 (data f)
                   \<and> length (data f') = 100000))
       \<and> (length (data f) \<le> 100000 \<longrightarrow> map_of fs' p = Some f)"
proof -
  have "results = [] @ filter candidate (rglob version fs)"
    using assms(1) by (rule collect_results)
  then have r: "p \<in> set results"
    using assms(2,3) by simp
  have m: "map_of fs' p = Some (after_pass (rglob version fs) p f)"
    using collect_fs [OF assms(1), of p] assms(4) by simp
  have big: "length (data f) > 100000 \<Longrightarrow>
      after_pass (rglob version fs) p f = f\<lparr>data := take 100000 (data f)\<rparr>"
    using assms(2,3) by (simp add: after_pass_def)
  have small: "length (data f) \<le> 100000 \<Longrightarrow> after_pass (rglob version fs) p f = f"
    by (simp add: after_pass_def)
  show ?thesis
    using r m big small by auto
qed

theorem collector_truncates_oversized_witness:
  "collect (rglob ''content/v1'' example_fs) example_fs []
     = (Inr [''content/v1/a.md'', ''content/v1/deep/b.MD''], example_fs_after)
 \<and> ''content/v1/a.md'' \<in> set (rglob ''content/v1'' example_fs)
 \<and> candidate ''content/v1/a.md''
 \<and> map_of example_fs ''content/v1/a.md'' = Some big_file
 \<and> length (data big_file) = 100001
 \<and> map_of example_fs_after ''content/v1/a.md'' = Some capped_file
 \<and> length (data capped_file) = 100000
 \<and> data capped_file = take 100000 (data big_file)"
proof -
  have c: "candidate ''content/v1/a.md''"
    by (simp add: candidate_def example_stems example_contains EXCLUDED_FILES_def EXCLUDED_DIRS_def)
  have g: "''content/v1/a.md'' \<in> set (rglob ''content/v1'' example_fs)"
    by (simp add: example_rglob)
  have m: "map_of example_fs ''content/v1/a.md'' = Some big_file"
    by (simp add: example_fs_def)
  have m': "map_of example_fs_after ''content/v1/a.md'' = Some capped_file"
    by (simp add: example_fs_after_def)
  have d: "length (data big_file) = 100001" "length (data capped_file) = 100000"
      "data capped_file = take 100000 (data big_file)"
    by (simp_all add: big_file_def capped_file_def)
  show ?thesis
    using collector_truncates_oversized [OF example_collect g c m] example_collect g c m m' d
    by simp
qed

text \<open>
  Claim C6. A path in the results of the collector loop comes from the walk, its stem is
  in no case an excluded one (\<open>menu\<close>, \<open>gdpr-banner\<close>), and no excluded substring
  (\<open>main-concepts\<close>) occurs in it, whatever its extension.
\<close>

theorem excluded_never_collected:
  assumes "collect (rglob version fs) fs [] = (Inr results, fs')"
    and "p \<in> set results"
  shows "p \<in> set (rglob version fs)
       \<and> stem p \<notin> EXCLUDED_FILES
       \<and> stem p \<noteq> ''menu'' \<and> stem p \<noteq> ''gdpr-banner''
       \<and> \<not> (\<exists>substring \<in> EXCLUDED_DIRS. \<exists>pre post. p = pre @ substring @ post)
       \<and> \<not> (\<exists>pre post. p = pre @ ''main-concepts'' @ post)"
proof -
  have "results = [] @ filter candidate (rglob version fs)"
    using assms(1) by (rule collect_results)
  with assms(2) have g: "p \<in> set (rglob version fs)" and c: "candidate p"
    by simp_all
  from c have st: "stem p \<notin> EXCLUDED_FILES"
    and nc: "\<And>substring. substring \<in> EXCLUDED_DIRS \<Longrightarrow> \<not> str_contains substring p"
    by (auto simp: candidate_def)
  have no: "\<not> (\<exists>substring \<in> EXCLUDED_DIRS. \<exists>pre post. p = pre @ substring @ post)"
  proof
    assume "\<exists>substring \<in> EXCLUDED_DIRS. \<exists>pre post. p = pre @ substring @ post"
    then obtain substring pre post where "substring \<in> EXCLUDED_DIRS" "p = pre @ substring @ post"
      by blast
    then show False
      using nc [of substring] str_contains_intro [of substring pre post] by simp
  qed
  from st have "stem p \<noteq> ''menu''" "stem p \<noteq> ''gdpr-banner''"
    by (auto simp: EXCLUDED_FILES_def)
  moreover from no have "\<not> (\<exists>pre post. p = pre @ ''main-concepts'' @ post)"
    by (simp add: EXCLUDED_DIRS_def)
  ultimately show ?thesis
    using g st no by blast
qed

theorem excluded_never_collected_witness:
  "collect (rglob ''content/v1'' example_fs) example_fs []
     = (Inr [''content/v1/a.md'', ''content/v1/deep/b.MD''], example_fs_after)
 \<and> ''content/v1/deep/b.MD'' \<in> set [''content/v1/a.md'', ''content/v1/deep/b.MD'']
 \<and> ''content/v1/menu.md'' \<in> set (rglob ''content/v1'' example_fs)
 \<and> ''content/v1/menu.md'' \<notin> set [''content/v1/a.md'', ''content/v1/deep/b.MD'']
 \<and> stem ''content/v1/deep/b.MD'' = ''b''
 \<and> stem ''content/v1/deep/b.MD'' \<notin> EXCLUDED_FILES
 \<and> \<not> str_contains ''main-concepts'' ''content/v1/deep/b.MD''"
proof -
  have r: "''content/v1/deep/b.MD'' \<in> set [''content/v1/a.md'', ''content/v1/deep/b.MD'']"
    by simp
  show ?thesis
    using excluded_never_collected [OF example_collect r] example_collect
    by (simp add: example_rglob example_stems example_contains)
qed

text \<open>
  Claim C9. The substring test reads the whole path: a path in which an excluded
  substring occurs anywhere, also inside the name of the file itself, is not in the
  results.
\<close>

theorem excluded_substring_anywhere_in_path:
  assumes "collect (rglob version fs) fs [] = (Inr results, fs')"
    and "substring \<in> EXCLUDED_DIRS"
    and "p = pre @ substring @ post \<or> path_name p = pre @ substring @ post"
  shows "p \<notin> set results"
proof
  assume "p \<in> set results"
  moreover have "results = [] @ filter candidate (rglob version fs)"
    using assms(1) by (rule collect_results)
  ultimately have "candidate p"
    by simp
  then have nc: "\<not> str_contains substring p"
    using assms(2) by (auto simp: candidate_def)
  from assms(3) have "str_contains substring p"
  proof
    assume "p = pre @ substring @ post"
    then show ?thesis
      using str_contains_intro [of substring pre post] by simp
  next
    assume "path_name p = pre @ substring @ post"
    then have "str_contains substring (path_name p)"
      using str_contains_intro [of substring pre post] by simp
    then show ?thesis
      by (rule str_contains_path_name)
  qed
  with nc show False ..
qed

theorem excluded_substring_anywhere_in_path_witness:
  "collect (rglob ''content/v1'' example_fs) example_fs []
     = (Inr [''content/v1/a.md'', ''content/v1/deep/b.MD''], example_fs_after)
 \<and> ''main-concepts'' \<in> EXCLUDED_DIRS
 \<and> path_name ''content/v1/main-concepts-overview.md'' = [] @ ''main-concepts'' @ ''-overview.md''
 \<and> ''content/v1/main-concepts-overview.md'' \<in> set (rglob ''content/v1'' example_fs)
 \<and> stem ''content/v1/main-concepts-overview.md'' \<notin> EXCLUDED_FILES
 \<and> ''content/v1/main-concepts-overview.md'' \<notin> set [''content/v1/a.md'', ''content/v1/deep/b.MD'']"
proof -
  have d: "''main-concepts'' \<in> EXCLUDED_DIRS"
    by (simp add: EXCLUDED_DIRS_def)
  have n: "path_name ''content/v1/main-concepts-overview.md'' = [] @ ''main-concepts'' @ ''-overview.md''"
    by (simp add: path_name_def)
  show ?thesis
    using excluded_substring_anywhere_in_path [OF example_collect d disjI2, OF n] example_collect d n
    by (simp add: example_rglob example_stems EXCLUDED_FILES_def)
qed

subsection \<open>The extractor\<close>

text \<open>The example pages, loaded.\<close>

lemma example_loads:
  "open_and_load table_libs pages_fs ''content/v1/intro.md'' = Inr intro_page"
  "open_and_load table_libs pages_fs ''content/v1/internal.md'' = Inr collate_page"
  "open_and_load table_libs pages_fs ''content/v1/untitled.md'' = Inr untitled_page"
  "open_and_load table_libs pages_fs ''content/v1/nullslug.md'' = Inr null_slug_page"
  "open_and_load table_libs pages_fs ''content/v1/nulltitle.md'' = Inr null_title_page"
  "open_and_load table_libs pages_fs ''content/v1/broken.md'' = Inl YAMLError"
  "open_and_load table_libs pages_fs ''content/v1/secret.md'' = Inl PermissionError"
  "open_and_load table_libs pages_fs ''content/v1/gone.md'' = Inl FileNotFoundError"
  by (simp_all add: open_and_load_def table_libs_def pages_fs_def page_file_def table_load_def)

text \<open>
  \<^verbatim>\<open>get_algolia_doc_from_file\<close> by the outcome of loading and of building the document:
  a \<open>KeyError\<close> from either becomes a warning and an absent result, any other exception
  leaves the function.
\<close>

lemma get_doc_cases:
  "get_algolia_doc_from_file L fs file =
     (case open_and_load L fs file of
        Inl e \<Rightarrow> (if is_KeyError e then (Inr None, [warning_text file (case e of KeyError err \<Rightarrow> err)]) else (Inl e, []))
      | Inr pg \<Rightarrow>
          (case doc_of_page L pg of
             Inl e \<Rightarrow> (if is_KeyError e then (Inr None, [warning_text file (case e of KeyError err \<Rightarrow> err)]) else (Inl e, []))
           | Inr r \<Rightarrow> (Inr r, [])))"
  by (auto simp: get_algolia_doc_from_file_def split: sum.splits py_exception.splits)

lemma get_doc_load_error:
  "open_and_load L fs file = Inl e \<Longrightarrow> \<not> is_KeyError e \<Longrightarrow>
   get_algolia_doc_from_file L fs file = (Inl e, [])"
  by (simp add: get_doc_cases)


lemma get_doc_missing_key:
  "open_and_load L fs file = Inr pg \<Longrightarrow> doc_of_page L pg = Inl (missing_key k) \<Longrightarrow>
   get_algolia_doc_from_file L fs file = (Inr None, [warning_text file (CHR 0x27 # k @ [CHR 0x27])])"
  by (simp add: get_doc_cases missing_key_def)

lemma get_doc_result:
  "open_and_load L fs file = Inr pg \<Longrightarrow> doc_of_page L pg = Inr r \<Longrightarrow>
   get_algolia_doc_from_file L fs file = (Inr r, [])"
  by (simp add: get_doc_cases)

lemma extract_docs_error:
  "get_algolia_doc_from_file L fs file = (Inl e, lg) \<Longrightarrow> extract_docs L fs (file # rest) = (Inl e, lg)"
  by simp

lemma extract_docs_skip:
  "get_algolia_doc_from_file L fs file = (Inr None, lg) \<Longrightarrow>
   extract_docs L fs (file # rest)
     = (fst (extract_docs L fs rest), lg @ snd (extract_docs L fs rest))"
  by (auto split: prod.splits sum.splits)

text \<open>A file whose extraction raises makes the whole comprehension raise.\<close>

lemma extract_docs_fails:
  "file \<in> set paths \<Longrightarrow> get_algolia_doc_from_file L fs file = (Inl e, lg) \<Longrightarrow>
   \<exists>e' lg'. extract_docs L fs paths = (Inl e', lg')"
proof (induction paths)
  case Nil
  then show ?case by simp
next
  case (Cons p rest)
  show ?case
  proof (cases "p = file")
    case True
    with Cons.prems show ?thesis by simp
  next
    case False
    with Cons obtain e' lg' where "extract_docs L fs rest = (Inl e', lg')"
      by auto
    then show ?thesis
      by (auto split: prod.splits sum.splits)
  qed
qed

lemma build_index_fails:
  assumes "collect (rglob version (files w)) (files w) [] = (Inr results, fs)"
    and "extract_docs L fs results = (Inl e, lg)"
  shows "build_index L version w = (Some e, w\<lparr>files := fs, warnings := warnings w @ lg\<rparr>)"
  using assms by (simp add: build_index_def)


lemma doc_of_page_collate: "truthy (metadata pg ''collate'') \<Longrightarrow> doc_of_page L pg = Inr None"
  by (simp add: doc_of_page_def)

lemma doc_of_page_no_slug:
  "\<not> truthy (metadata pg ''collate'') \<Longrightarrow> metadata pg ''slug'' = None \<Longrightarrow>
   doc_of_page L pg = Inl (missing_key ''slug'')"
  by (simp add: doc_of_page_def)

lemma doc_of_page_no_title:
  "\<not> truthy (metadata pg ''collate'') \<Longrightarrow> metadata pg ''slug'' = Some sv \<Longrightarrow>
   metadata pg ''title'' = None \<Longrightarrow> doc_of_page L pg = Inl (missing_key ''title'')"
  by (simp add: doc_of_page_def)



text \<open>
  Claim C8. For a file whose metadata holds a truthy \<open>collate\<close> flag, the extractor
  returns no document and logs nothing; in a batch the file leaves no trace.
\<close>

theorem collate_flag_skips_silently:
  assumes "open_and_load L fs file = Inr pg"
    and "truthy (metadata pg ''collate'')"
  shows "get_algolia_doc_from_file L fs file = (Inr None, [])
       \<and> extract_docs L fs (file # rest) = extract_docs L fs rest"
proof -
  have "doc_of_page L pg = Inr None"
    using assms(2) by (rule doc_of_page_collate)
  with assms(1) have g: "get_algolia_doc_from_file L fs file = (Inr None, [])"
    by (rule get_doc_result)
  then have "extract_docs L fs (file # rest)
               = (fst (extract_docs L fs rest), [] @ snd (extract_docs L fs rest))"
    by (rule extract_docs_skip)
  with g show ?thesis by simp
qed

theorem collate_flag_skips_silently_witness:
  "open_and_load table_libs pages_fs ''content/v1/internal.md'' = Inr collate_page
 \<and> truthy (metadata collate_page ''collate'')
 \<and> get_algolia_doc_from_file table_libs pages_fs ''content/v1/internal.md'' = (Inr None, [])"
proof -
  have t: "truthy (metadata collate_page ''collate'')"
    by (simp add: collate_page_def)
  show ?thesis
    using collate_flag_skips_silently [OF example_loads(2) t] example_loads(2) t by simp
qed

text \<open>
  Claim C2, as the specification states it, fails: the \<open>collate\<close> test comes before the
  required keys are read. A file flagged \<open>collate\<close> that has neither a slug nor a title
  is skipped without any warning.
\<close>

theorem missing_field_always_warns_counterexample:
  "open_and_load table_libs pages_fs ''content/v1/internal.md'' = Inr collate_page
 \<and> metadata collate_page ''slug'' = None
 \<and> metadata collate_page ''title'' = None
 \<and> get_algolia_doc_from_file table_libs pages_fs ''content/v1/internal.md'' = (Inr None, [])"
  by (simp add: get_doc_cases example_loads doc_of_page_def collate_page_def)

text \<open>
  Claim C2, amended. For a file that is opened and parsed, carries no truthy \<open>collate\<close>
  flag and lacks the \<open>slug\<close> key or the \<open>title\<close> key, the extractor returns no
  document and logs exactly one warning, which holds the path of the file and the name
  of the missing key (\<open>slug\<close> when both are missing); the rest of the batch is
  processed as it would be without this file.
\<close>

theorem missing_field_skips_with_one_warning:
  assumes "open_and_load L fs file = Inr pg"
    and "\<not> truthy (metadata pg ''collate'')"
    and "metadata pg ''slug'' = None \<or> metadata pg ''title'' = None"
    and "field = (if metadata pg ''slug'' = None then ''slug'' else ''title'')"
    and "warning = ''Error processing file at '' @ file @ '' - ['' @ [CHR 0x27] @ field @ [CHR 0x27]
                     @ '']. Skipping...''"
  shows "get_algolia_doc_from_file L fs file = (Inr None, [warning])
       \<and> extract_docs L fs (file # rest)
           = (fst (extract_docs L fs rest), warning # snd (extract_docs L fs rest))"
proof -
  have "doc_of_page L pg = Inl (missing_key field)"
  proof (cases "metadata pg ''slug''")
    case None
    with assms(2,4) show ?thesis
      by (simp add: doc_of_page_no_slug)
  next
    case (Some sv)
    with assms(3) have "metadata pg ''title'' = None"
      by simp
    with assms(2,4) Some show ?thesis
      by (simp add: doc_of_page_no_title)
  qed
  with assms(1) have "get_algolia_doc_from_file L fs file
      = (Inr None, [warning_text file (CHR 0x27 # field @ [CHR 0x27])])"
    by (rule get_doc_missing_key)
  then have g: "get_algolia_doc_from_file L fs file = (Inr None, [warning])"
    by (simp add: warning_text_def assms(5))
  then have "extract_docs L fs (file # rest)
               = (fst (extract_docs L fs rest), [warning] @ snd (extract_docs L fs rest))"
    by (rule extract_docs_skip)
  with g show ?thesis by simp
qed

theorem missing_field_skips_with_one_warning_witness:
  "open_and_load table_libs pages_fs ''content/v1/untitled.md'' = Inr untitled_page
 \<and> \<not> truthy (metadata untitled_page ''collate'')
 \<and> metadata untitled_page ''slug'' \<noteq> None
 \<and> metadata untitled_page ''title'' = None
 \<and> get_algolia_doc_from_file table_libs pages_fs ''content/v1/untitled.md''
      = (Inr None, [''Error processing file at content/v1/untitled.md - ['' @ [CHR 0x27] @ ''title''
                     @ [CHR 0x27] @ '']. Skipping...''])
 \<and> extract_docs table_libs pages_fs [''content/v1/untitled.md'', ''content/v1/intro.md'']
      = (Inr [\<lparr>objectID = ''/a/b/c'', title = ''Intro'', description = None,
               categories = [''a'', ''b'', ''c''], content_field = '' Hello worldtext''\<rparr>],
         [''Error processing file at content/v1/untitled.md - ['' @ [CHR 0x27] @ ''title''
            @ [CHR 0x27] @ '']. Skipping...''])"
proof -
  have c: "\<not> truthy (metadata untitled_page ''collate'')"
    and s: "metadata untitled_page ''slug'' \<noteq> None"
    and t: "metadata untitled_page ''title'' = None"
    by (simp_all add: untitled_page_def)
  have f: "''title'' = (if metadata untitled_page ''slug'' = None then ''slug'' else ''title'')"
    using s by simp
  have d: "doc_of_page table_libs intro_page
     = Inr (Some \<lparr>objectID = ''/a/b/c'', title = ''Intro'', description = None,
                  categories = [''a'', ''b'', ''c''], content_field = '' Hello worldtext''\<rparr>)"
    by (simp add: doc_of_page_def intro_page_def table_libs_def mk_AlgoliaDoc_def
          get_page_content_def replace_empty_def)
  have i: "extract_docs table_libs pages_fs [''content/v1/intro.md'']
     = (Inr [\<lparr>objectID = ''/a/b/c'', title = ''Intro'', description = None,
               categories = [''a'', ''b'', ''c''], content_field = '' Hello worldtext''\<rparr>], [])"
    by (simp add: get_doc_result [OF example_loads(1) d])
  show ?thesis
    using missing_field_skips_with_one_warning
            [OF example_loads(3) c disjI2 f refl, OF t, of "[''content/v1/intro.md'']"]
          example_loads(3) c s t i
    by simp
qed


lemma example_pages_collect:
  "collect (rglob ''content/v1'' pages_fs) pages_fs []
     = (Inr [''content/v1/intro.md'', ''content/v1/internal.md'', ''content/v1/untitled.md'',
             ''content/v1/nullslug.md'', ''content/v1/nulltitle.md'', ''content/v1/broken.md'',
             ''content/v1/secret.md''], pages_fs)"
proof -
  have g: "rglob ''content/v1'' pages_fs
     = [''content/v1/intro.md'', ''content/v1/internal.md'', ''content/v1/untitled.md'',
        ''content/v1/nullslug.md'', ''content/v1/nulltitle.md'', ''content/v1/broken.md'',
        ''content/v1/secret.md'']"
    by (simp add: rglob_def pages_fs_def match_md_def path_name_def)
  have st: "stem ''content/v1/intro.md'' = ''intro''" "stem ''content/v1/internal.md'' = ''internal''"
    "stem ''content/v1/untitled.md'' = ''untitled''" "stem ''content/v1/nullslug.md'' = ''nullslug''"
    "stem ''content/v1/nulltitle.md'' = ''nulltitle''" "stem ''content/v1/broken.md'' = ''broken''"
    "stem ''content/v1/secret.md'' = ''secret''"
    by (simp_all add: stem_def path_name_def)
  have sz: "st_size pages_fs ''content/v1/intro.md'' = Inr 1"
    "st_size pages_fs ''content/v1/internal.md'' = Inr 1"
    "st_size pages_fs ''content/v1/untitled.md'' = Inr 1"
    "st_size pages_fs ''content/v1/nullslug.md'' = Inr 1"
    "st_size pages_fs ''content/v1/nulltitle.md'' = Inr 1"
    "st_size pages_fs ''content/v1/broken.md'' = Inr 1"
    "st_size pages_fs ''content/v1/secret.md'' = Inr 1"
    by (simp_all add: st_size_def pages_fs_def page_file_def)
  show ?thesis
    unfolding g by (simp add: st sz EXCLUDED_FILES_def EXCLUDED_DIRS_def)
qed

text \<open>
  An extraction that raises on a collected file ends \<^verbatim>\<open>build_index\<close> and
  \<^verbatim>\<open>build_indexes\<close> with an exception, and nothing is published.
\<close>

lemma run_aborts:
  assumes "collect (rglob version (files w)) (files w) [] = (Inr results, fs)"
    and "pth \<in> set results"
    and "get_algolia_doc_from_file L fs pth = (Inl e, lg)"
  shows "\<exists>e' w'. build_index L version w = (Some e', w')
                \<and> build_indexes L (version # versions) w = (Some e', w')
                \<and> indexes w' = indexes w"
proof -
  obtain e' lg' where "extract_docs L fs results = (Inl e', lg')"
    using extract_docs_fails [OF assms(2,3)] by blast
  with assms(1)
  have b: "build_index L version w = (Some e', w\<lparr>files := fs, warnings := warnings w @ lg'\<rparr>)"
    by (rule build_index_fails)
  then have "build_indexes L (version # versions) w
               = (Some e', w\<lparr>files := fs, warnings := warnings w @ lg'\<rparr>)"
    by simp
  with b show ?thesis by simp
qed

text \<open>
  Claim C7, as the specification states it, fails: the parser is called inside the
  \<^verbatim>\<open>try\<close> block, so a \<open>KeyError\<close> that it raises is caught like the one of a
  missing key. With a parser that raises \<open>KeyError\<close> on a file, the file is skipped
  with a warning and nothing propagates.
\<close>

theorem parse_failure_always_propagates_counterexample:
  "map_of pages_fs ''content/v1/broken.md'' = Some (page_file 9)
 \<and> readable (page_file 9)
 \<and> frontmatter_load keyerror_libs (data (page_file 9)) = Inl (KeyError ''anchor'')
 \<and> get_algolia_doc_from_file keyerror_libs pages_fs ''content/v1/broken.md''
      = (Inr None, [''Error processing file at content/v1/broken.md - [anchor]. Skipping...''])"
  by (simp add: get_doc_cases open_and_load_def keyerror_libs_def pages_fs_def page_file_def
        warning_text_def)

text \<open>
  Claim C7, amended. For a file that is missing, or is not readable, or on which the
  parser raises an exception other than a \<open>KeyError\<close>, the exception leaves the
  extractor with nothing logged and ends the extraction of the batch. When such a file
  is among the collected ones (it then exists, and is unreadable or not parsable),
  \<^verbatim>\<open>build_index\<close> and \<^verbatim>\<open>build_indexes\<close> end with an exception before anything is
  published. A \<open>KeyError\<close> raised by the parser is caught: the file is skipped with one
  warning, as for a missing key.
\<close>

theorem open_or_parse_failure_propagates:
  "((map_of fs pth = None \<and> e = FileNotFoundError)
      \<or> (\<exists>f. map_of fs pth = Some f \<and> \<not> readable f \<and> e = PermissionError)
      \<or> (\<exists>f. map_of fs pth = Some f \<and> readable f
             \<and> frontmatter_load L (data f) = Inl e \<and> \<not> is_KeyError e)
    \<longrightarrow> get_algolia_doc_from_file L fs pth = (Inl e, [])
        \<and> extract_docs L fs (pth # rest) = (Inl e, []))
 \<and> (((\<exists>f. map_of fs pth = Some f \<and> \<not> readable f)
       \<or> (\<exists>f x. map_of fs pth = Some f \<and> readable f
              \<and> frontmatter_load L (data f) = Inl x \<and> \<not> is_KeyError x))
      \<and> collect (rglob version (files w)) (files w) [] = (Inr results, fs)
      \<and> pth \<in> set results
    \<longrightarrow> (\<exists>e' w'. build_index L version w = (Some e', w')
                 \<and> build_indexes L (version # versions) w = (Some e', w')
                 \<and> indexes w' = indexes w))
 \<and> ((\<exists>f. map_of fs pth = Some f \<and> readable f
         \<and> frontmatter_load L (data f) = Inl (KeyError err))
    \<longrightarrow> get_algolia_doc_from_file L fs pth = (Inr None, [warning_text pth err])
        \<and> extract_docs L fs (pth # rest)
            = (fst (extract_docs L fs rest), warning_text pth err # snd (extract_docs L fs rest)))"
proof (intro conjI impI)
  assume a: "(map_of fs pth = None \<and> e = FileNotFoundError)
      \<or> (\<exists>f. map_of fs pth = Some f \<and> \<not> readable f \<and> e = PermissionError)
      \<or> (\<exists>f. map_of fs pth = Some f \<and> readable f
             \<and> frontmatter_load L (data f) = Inl e \<and> \<not> is_KeyError e)"
  then have "open_and_load L fs pth = Inl e \<and> \<not> is_KeyError e"
    by (auto simp: open_and_load_def)
  then show g: "get_algolia_doc_from_file L fs pth = (Inl e, [])"
    by (simp add: get_doc_load_error)
  then show "extract_docs L fs (pth # rest) = (Inl e, [])"
    by (rule extract_docs_error)
next
  assume a: "((\<exists>f. map_of fs pth = Some f \<and> \<not> readable f)
       \<or> (\<exists>f x. map_of fs pth = Some f \<and> readable f
              \<and> frontmatter_load L (data f) = Inl x \<and> \<not> is_KeyError x))
      \<and> collect (rglob version (files w)) (files w) [] = (Inr results, fs)
      \<and> pth \<in> set results"
  then have "\<exists>x. open_and_load L fs pth = Inl x \<and> \<not> is_KeyError x"
    by (auto simp: open_and_load_def)
  then obtain x where "get_algolia_doc_from_file L fs pth = (Inl x, [])"
    using get_doc_load_error by blast
  moreover from a have "collect (rglob version (files w)) (files w) [] = (Inr results, fs)"
    and "pth \<in> set results"
    by simp_all
  ultimately show "\<exists>e' w'. build_index L version w = (Some e', w')
                 \<and> build_indexes L (version # versions) w = (Some e', w')
                 \<and> indexes w' = indexes w"
    using run_aborts [of version w results fs pth L x "[]" versions] by simp
next
  assume a: "\<exists>f. map_of fs pth = Some f \<and> readable f
         \<and> frontmatter_load L (data f) = Inl (KeyError err)"
  then have "open_and_load L fs pth = Inl (KeyError err)"
    by (auto simp: open_and_load_def)
  then show g: "get_algolia_doc_from_file L fs pth = (Inr None, [warning_text pth err])"
    by (simp add: get_doc_cases)
  then have "extract_docs L fs (pth # rest)
               = (fst (extract_docs L fs rest), [warning_text pth err] @ snd (extract_docs L fs rest))"
    by (rule extract_docs_skip)
  then show "extract_docs L fs (pth # rest)
            = (fst (extract_docs L fs rest), warning_text pth err # snd (extract_docs L fs rest))"
    by simp
qed

theorem open_or_parse_failure_propagates_witness:
  "map_of pages_fs ''content/v1/gone.md'' = None
 \<and> get_algolia_doc_from_file table_libs pages_fs ''content/v1/gone.md'' = (Inl FileNotFoundError, [])
 \<and> map_of pages_fs ''content/v1/secret.md'' = Some \<lparr>readable = False, writable = False, data = [1]\<rparr>
 \<and> get_algolia_doc_from_file table_libs pages_fs ''content/v1/secret.md'' = (Inl PermissionError, [])
 \<and> map_of pages_fs ''content/v1/broken.md'' = Some (page_file 9)
 \<and> readable (page_file 9)
 \<and> frontmatter_load table_libs (data (page_file 9)) = Inl YAMLError
 \<and> \<not> is_KeyError YAMLError
 \<and> get_algolia_doc_from_file table_libs pages_fs ''content/v1/broken.md'' = (Inl YAMLError, [])
 \<and> extract_docs table_libs pages_fs [''content/v1/broken.md'', ''content/v1/intro.md'']
      = (Inl YAMLError, [])
 \<and> collect (rglob ''content/v1'' (files \<lparr>files = pages_fs, indexes = Map.empty, warnings = []\<rparr>))
       (files \<lparr>files = pages_fs, indexes = Map.empty, warnings = []\<rparr>) []
      = (Inr [''content/v1/intro.md'', ''content/v1/internal.md'', ''content/v1/untitled.md'',
              ''content/v1/nullslug.md'', ''content/v1/nulltitle.md'', ''content/v1/broken.md'',
              ''content/v1/secret.md''], pages_fs)
 \<and> fst (build_index table_libs ''content/v1''
           \<lparr>files = pages_fs, indexes = Map.empty, warnings = []\<rparr>) \<noteq> None
 \<and> fst (build_indexes table_libs [''content/v1'', ''content/v2'']
           \<lparr>files = pages_fs, indexes = Map.empty, warnings = []\<rparr>) \<noteq> None
 \<and> frontmatter_load keyerror_libs (data (page_file 9)) = Inl (KeyError ''anchor'')
 \<and> fst (get_algolia_doc_from_file keyerror_libs pages_fs ''content/v1/broken.md'') = Inr None"
proof -
  let ?w = "\<lparr>files = pages_fs, indexes = Map.empty, warnings = []\<rparr>"
  let ?rs = "[''content/v1/intro.md'', ''content/v1/internal.md'', ''content/v1/untitled.md'',
              ''content/v1/nullslug.md'', ''content/v1/nulltitle.md'', ''content/v1/broken.md'',
              ''content/v1/secret.md'']"
  have gone: "map_of pages_fs ''content/v1/gone.md'' = None"
    by (simp add: pages_fs_def)
  have secret: "map_of pages_fs ''content/v1/secret.md''
                  = Some \<lparr>readable = False, writable = False, data = [1]\<rparr>"
    by (simp add: pages_fs_def)
  have m: "map_of pages_fs ''content/v1/broken.md'' = Some (page_file 9)"
    by (simp add: pages_fs_def)
  have r: "readable (page_file 9)"
    by (simp add: page_file_def)
  have l: "frontmatter_load table_libs (data (page_file 9)) = Inl YAMLError"
    by (simp add: table_libs_def table_load_def page_file_def)
  have lk: "frontmatter_load keyerror_libs (data (page_file 9)) = Inl (KeyError ''anchor'')"
    by (simp add: keyerror_libs_def)
  have c: "collect (rglob ''content/v1'' (files ?w)) (files ?w) [] = (Inr ?rs, pages_fs)"
    using example_pages_collect by simp
  have b: "''content/v1/broken.md'' \<in> set ?rs"
    by simp
  have g1: "get_algolia_doc_from_file table_libs pages_fs ''content/v1/gone.md''
              = (Inl FileNotFoundError, [])"
    using open_or_parse_failure_propagates
            [where fs = pages_fs and pth = "''content/v1/gone.md''" and e = FileNotFoundError
               and L = table_libs]
          gone
    by simp
  have g2: "get_algolia_doc_from_file table_libs pages_fs ''content/v1/secret.md''
              = (Inl PermissionError, [])"
    using open_or_parse_failure_propagates
            [where fs = pages_fs and pth = "''content/v1/secret.md''" and e = PermissionError
               and L = table_libs]
          secret
    by simp
  have g3: "get_algolia_doc_from_file table_libs pages_fs ''content/v1/broken.md'' = (Inl YAMLError, [])
          \<and> extract_docs table_libs pages_fs [''content/v1/broken.md'', ''content/v1/intro.md'']
               = (Inl YAMLError, [])"
    using open_or_parse_failure_propagates
            [where fs = pages_fs and pth = "''content/v1/broken.md''" and e = YAMLError
               and L = table_libs and rest = "[''content/v1/intro.md'']"]
          m r l
    by simp
  have "\<exists>e' w'. build_index table_libs ''content/v1'' ?w = (Some e', w')
                \<and> build_indexes table_libs [''content/v1'', ''content/v2''] ?w = (Some e', w')
                \<and> indexes w' = indexes ?w"
    using open_or_parse_failure_propagates
            [where fs = pages_fs and pth = "''content/v1/broken.md''" and L = table_libs
               and version = "''content/v1''" and w = ?w and results = ?rs
               and versions = "[''content/v2'']"]
          m r l c b
    by (simp add: exI [of _ YAMLError])
  then obtain e' w' where "build_index table_libs ''content/v1'' ?w = (Some e', w')"
    and "build_indexes table_libs [''content/v1'', ''content/v2''] ?w = (Some e', w')"
    by blast
  then have g4: "fst (build_index table_libs ''content/v1'' ?w) \<noteq> None"
    "fst (build_indexes table_libs [''content/v1'', ''content/v2''] ?w) \<noteq> None"
    by simp_all
  have g5: "fst (get_algolia_doc_from_file keyerror_libs pages_fs ''content/v1/broken.md'') = Inr None"
    using open_or_parse_failure_propagates
            [where fs = pages_fs and pth = "''content/v1/broken.md''" and L = keyerror_libs
               and err = "''anchor''"]
          m r lk
    by simp
  show ?thesis
    using gone secret m r l lk c g1 g2 g3 g4 g5 by simp
qed




end
